theory Spec2Isabelle
  imports Main "HOL-Library.Word" "HOL-Library.Product_Lexorder" "HOL-Library.List_Lexorder"
begin

unbundle bit_operations_syntax

section \<open>Smart store access server: ledger, CoAP codec and handlers\<close>

text \<open>
  A shallow embedding of \<^verbatim>\<open>src/server.py\<close>. Python integers are \<^typ>\<open>int\<close>, a
  \<^verbatim>\<open>bytes\<close> value is a list of 8-bit words, a \<^verbatim>\<open>str\<close> is a \<^typ>\<open>string\<close>
  (code points below 256), exceptions are values of the type \<open>error\<close> on the left of a
  sum, and the attributes a method assigns are returned as the updated record.
\<close>

type_synonym byte = "8 word"
type_synonym bytes = "byte list"
type_synonym address = "string \<times> nat"

text \<open>
  The exceptions the modelled code raises: \<open>ValueError\<close> is the explicit
  \<^verbatim>\<open>raise ValueError("Message too short")\<close> of \<^verbatim>\<open>parse\<close>, \<open>IndexError\<close> an index
  past the end of a \<^verbatim>\<open>bytes\<close> value, \<open>StructError\<close> the \<^verbatim>\<open>struct.error\<close> of
  \<^verbatim>\<open>struct.pack\<close> and \<^verbatim>\<open>struct.unpack\<close>, and \<open>TypeError\<close> a \<^verbatim>\<open>sendto\<close> whose address
  is \<^verbatim>\<open>None\<close>.
\<close>

datatype error = ValueError | IndexError | StructError | TypeError

subsection \<open>StoreStats\<close>

record StoreStats =
  total_entrants :: int
  customers_in_store :: int
  max_capacity :: int

text \<open>\<^verbatim>\<open>StoreStats.__init__\<close>. The lock serialises the three methods below, so each one is
  a single step on the record.\<close>

definition StoreStats_init :: StoreStats where
  "StoreStats_init = \<lparr>total_entrants = 0, customers_in_store = 0, max_capacity = 10\<rparr>"

definition can_enter :: "StoreStats \<Rightarrow> bool" where
  "can_enter s = (customers_in_store s < max_capacity s)"

definition add_customer :: "StoreStats \<Rightarrow> bool \<times> StoreStats" where
  "add_customer s =
     (if customers_in_store s < max_capacity s
      then (True, s\<lparr>customers_in_store := customers_in_store s + 1,
                     total_entrants := total_entrants s + 1\<rparr>)
      else (False, s))"

definition remove_customer :: "StoreStats \<Rightarrow> bool \<times> StoreStats" where
  "remove_customer s =
     (if customers_in_store s > 0
      then (True, s\<lparr>customers_in_store := customers_in_store s - 1\<rparr>)
      else (False, s))"

text \<open>A caller's sequence of ledger operations, run from a given state.\<close>

datatype ledger_op = Enter | Leave

fun ledger_step :: "StoreStats \<Rightarrow> ledger_op \<Rightarrow> StoreStats" where
  "ledger_step s Enter = snd (add_customer s)"
| "ledger_step s Leave = snd (remove_customer s)"

definition ledger_run :: "ledger_op list \<Rightarrow> StoreStats \<Rightarrow> StoreStats" where
  "ledger_run ops s = foldl ledger_step s ops"

subsection \<open>Protocol constants\<close>

definition ACK :: int where "ACK = 2"

definition GET :: int where "GET = 1"
definition PUT :: int where "PUT = 3"
definition CHANGED :: int where "CHANGED = 68"
definition CONTENT :: int where "CONTENT = 69"

definition URI_PATH :: int where "URI_PATH = 11"

subsection \<open>CoAPMessage\<close>

record CoAPMessage =
  version :: int
  type :: int
  token_length :: int
  code :: int
  message_id :: int
  token :: bytes
  options :: "(int \<times> bytes) list"
  payload :: bytes
  source :: "address option"

text \<open>\<^verbatim>\<open>CoAPMessage.__init__\<close>.\<close>

definition CoAPMessage_init :: CoAPMessage where
  "CoAPMessage_init =
     \<lparr>version = 1, type = 0, token_length = 0, code = 0, message_id = 0,
      token = [], options = [], payload = [], source = None\<rparr>"

text \<open>The slice \<^verbatim>\<open>xs[a:b]\<close> for \<open>0 \<le> a \<le> b\<close>: it stops at the end of \<open>xs\<close> and never
  raises.\<close>

definition slice :: "'a list \<Rightarrow> nat \<Rightarrow> nat \<Rightarrow> 'a list" where
  "slice xs a b = take (b - a) (drop a xs)"

subsection \<open>parse\<close>

text \<open>
  The two \<^verbatim>\<open>if ... == 13 ... elif ... == 14\<close> blocks of \<^verbatim>\<open>parse\<close>, which differ only in the
  variable they extend: from the nibble \<open>v\<close> and the position, the extended value and the
  position after it. \<^verbatim>\<open>data[pos]\<close> raises IndexError past the end; \<^verbatim>\<open>struct.unpack('!H', ...)\<close>
  raises \<^verbatim>\<open>struct.error\<close> on a slice shorter than two bytes. Every other nibble, 15 too, is
  taken as it is.
\<close>

definition extended :: "bytes \<Rightarrow> nat \<Rightarrow> nat \<Rightarrow> error + (nat \<times> nat)" where
  "extended data v pos =
     (if v = 13 then
        (if pos < length data then Inr (unat (data ! pos) + 13, pos + 1) else Inl IndexError)
      else if v = 14 then
        (case slice data pos (pos + 2) of
           [hi, lo] \<Rightarrow> Inr (256 * unat hi + unat lo + 269, pos + 2)
         | _ \<Rightarrow> Inl StructError)
      else Inr (v, pos))"

text \<open>The \<^verbatim>\<open>while pos < len(data)\<close> loop of \<^verbatim>\<open>parse\<close>: its variables are \<open>pos\<close>,
  \<open>option_number\<close> and the message under construction.\<close>

function parse_loop :: "bytes \<Rightarrow> nat \<Rightarrow> int \<Rightarrow> CoAPMessage \<Rightarrow> error + CoAPMessage" where
  "parse_loop data pos option_number message =
     (if pos < length data then
        (if data ! pos = 0xFF then Inr (message\<lparr>payload := drop (pos + 1) data\<rparr>)
         else
           (let option_delta = unat (drop_bit 4 (data ! pos) AND 0x0F);
                option_length = unat (data ! pos AND 0x0F);
                pos1 = pos + 1
            in case extended data option_delta pos1 of
                 Inl e \<Rightarrow> Inl e
               | Inr (option_delta, pos2) \<Rightarrow>
                   (case extended data option_length pos2 of
                      Inl e \<Rightarrow> Inl e
                    | Inr (option_length, pos3) \<Rightarrow>
                        (let option_number = option_number + int option_delta;
                             option_value = slice data pos3 (pos3 + option_length)
                         in parse_loop data (pos3 + option_length) option_number
                              (message\<lparr>options :=
                                 options message @ [(option_number, option_value)]\<rparr>)))))
      else Inr message)"
  by pat_completeness auto
termination
proof (relation "measure (\<lambda>(data, pos, option_number, message). length data - pos)")
  show "wf (measure (\<lambda>(data, pos, option_number, message). length data - pos))"
    by simp
next
  fix data :: bytes and pos :: nat and option_number :: int and message :: CoAPMessage
    and d l p1 y d' p2 y' l' p3 n v
  assume "pos < length data" and "p1 = pos + 1"
    and "extended data d p1 = Inr y" and "(d', p2) = y"
    and "extended data l p2 = Inr y'" and "(l', p3) = y'"
  then have "pos + 1 \<le> p2" and "p2 \<le> p3"
    by (auto simp: extended_def split: if_splits list.splits)
  with \<open>pos < length data\<close>
  show "((data, p3 + l', n, message\<lparr>options := options message @ [(n, v)]\<rparr>),
         (data, pos, option_number, message))
        \<in> measure (\<lambda>(data, pos, option_number, message). length data - pos)"
    by simp
qed

declare parse_loop.simps [simp del]

definition parse :: "bytes \<Rightarrow> error + CoAPMessage" where
  "parse data =
     (if length data < 4 then Inl ValueError
      else
        (let message = CoAPMessage_init;
             header0 = uint (data ! 0);
             message = message\<lparr>version := drop_bit 6 header0 AND 0x03,
                                type := drop_bit 4 header0 AND 0x03,
                                token_length := header0 AND 0x0F,
                                code := uint (data ! 1),
                                message_id := 256 * uint (data ! 2) + uint (data ! 3)\<rparr>;
             message = (if token_length message > 0
                        then message\<lparr>token := slice data 4 (4 + nat (token_length message))\<rparr>
                        else message);
             pos = 4 + nat (token_length message)
         in parse_loop data pos 0 message))"

subsection \<open>create_response\<close>

text \<open>The \<^verbatim>\<open>payload\<close> argument of \<^verbatim>\<open>create_response\<close> is a \<^verbatim>\<open>bytes\<close> value or a
  \<^verbatim>\<open>str\<close>; the method tells them apart with \<^verbatim>\<open>isinstance\<close>.\<close>

datatype payload_arg = Bytes bytes | Str string

text \<open>\<^verbatim>\<open>str.encode('utf-8')\<close> on code points below 256: one byte below 128, two bytes
  from there on.\<close>

definition encode_utf8 :: "string \<Rightarrow> bytes" where
  "encode_utf8 s =
     concat (map (\<lambda>c. let n = (of_char c :: nat)
                       in if n < 128 then [of_nat n]
                          else [of_nat (192 + n div 64), of_nat (128 + n mod 64)]) s)"

definition create_response :: "CoAPMessage \<Rightarrow> int \<Rightarrow> payload_arg \<Rightarrow> CoAPMessage" where
  "create_response self code' payload' =
     (let response = CoAPMessage_init;
          response = response\<lparr>version := 1\<rparr>;
          response = response\<lparr>type := ACK\<rparr>;
          response = response\<lparr>token_length := int (length (token self))\<rparr>;
          response = response\<lparr>code := code'\<rparr>;
          response = response\<lparr>message_id := message_id self\<rparr>;
          response = response\<lparr>token := token self\<rparr>;
          response = response\<lparr>payload :=
            (case payload' of Bytes b \<Rightarrow> b | Str s \<Rightarrow> encode_utf8 s)\<rparr>
      in response)"

text \<open>
  The same method on a store of message objects, one attribute assignment at a time: a
  reference is an index into the list of live objects, \<^verbatim>\<open>CoAPMessage()\<close> allocates the next
  index, and \<^verbatim>\<open>response.f = e\<close> updates the object at \<open>response\<close> only. The method returns
  the store and the reference of the response.
\<close>

type_synonym store = "CoAPMessage list"

definition new_CoAPMessage :: "store \<Rightarrow> store \<times> nat" where
  "new_CoAPMessage h = (h @ [CoAPMessage_init], length h)"

definition setattr :: "store \<Rightarrow> nat \<Rightarrow> (CoAPMessage \<Rightarrow> CoAPMessage) \<Rightarrow> store" where
  "setattr h r f = h[r := f (h ! r)]"

definition create_response_obj :: "store \<Rightarrow> nat \<Rightarrow> int \<Rightarrow> payload_arg \<Rightarrow> store \<times> nat" where
  "create_response_obj h0 self code' payload' =
     (let (h, response) = new_CoAPMessage h0;
          h = setattr h response (\<lambda>m. m\<lparr>version := 1\<rparr>);
          h = setattr h response (\<lambda>m. m\<lparr>type := ACK\<rparr>);
          h = setattr h response (\<lambda>m. m\<lparr>token_length := int (length (token (h ! self)))\<rparr>);
          h = setattr h response (\<lambda>m. m\<lparr>code := code'\<rparr>);
          h = setattr h response (\<lambda>m. m\<lparr>message_id := message_id (h ! self)\<rparr>);
          h = setattr h response (\<lambda>m. m\<lparr>token := token (h ! self)\<rparr>);
          h = setattr h response (\<lambda>m. m\<lparr>payload :=
                (case payload' of Bytes b \<Rightarrow> b | Str s \<Rightarrow> encode_utf8 s)\<rparr>)
      in (h, response))"

subsection \<open>serialize\<close>

text \<open>The body of the \<^verbatim>\<open>for option in sorted(self.options)\<close> loop, over the sorted list,
  with \<open>current_option\<close> and the bytes built so far.\<close>

fun serialize_options :: "(int \<times> bytes) list \<Rightarrow> int \<Rightarrow> bytes \<Rightarrow> bytes" where
  "serialize_options [] current_option data = data"
| "serialize_options ((option_number, option_value) # rest) current_option data =
     (let option_delta = option_number - current_option;
          option_length = int (length option_value);
          option_header = push_bit 4 (option_delta AND 0x0F) OR (option_length AND 0x0F)
      in serialize_options rest option_number
           (data @ [word_of_int option_header] @ option_value))"

text \<open>
  \<^verbatim>\<open>sorted\<close> compares the \<^verbatim>\<open>(number, value)\<close> tuples themselves: by number, then by the
  value's bytes in lexicographic order, which is the order of \<^typ>\<open>int \<times> bytes\<close> here.
  Tuples that compare equal are identical, so the sorted list is the one \<^const>\<open>sort\<close>
  returns. \<^verbatim>\<open>struct.pack('!BBH', ...)\<close> raises \<^verbatim>\<open>struct.error\<close> when \<open>code\<close> is not a
  byte or \<open>message_id\<close> not a 16-bit value; the header byte always is one.
\<close>

definition serialize :: "CoAPMessage \<Rightarrow> error + bytes" where
  "serialize self =
     (let header = push_bit 6 (version self AND 0x03) OR push_bit 4 (type self AND 0x03)
                     OR (token_length self AND 0x0F)
      in if \<not> (0 \<le> code self \<and> code self \<le> 255 \<and> 0 \<le> message_id self \<and> message_id self \<le> 65535)
         then Inl StructError
         else
           (let data = [word_of_int header, word_of_int (code self),
                        word_of_int (message_id self div 256), word_of_int (message_id self mod 256)];
                data = (if token_length self > 0 then data @ token self else data);
                data = serialize_options (sort (options self)) 0 data;
                data = (if payload self \<noteq> [] then data @ [0xFF] @ payload self else data)
            in Inr data))"

subsection \<open>get_uri_path\<close>

text \<open>\<^verbatim>\<open>sep.join(parts)\<close>.\<close>

fun join :: "string \<Rightarrow> string list \<Rightarrow> string" where
  "join sep [] = []"
| "join sep [x] = x"
| "join sep (x # y # ys) = x @ sep @ join sep (y # ys)"

text \<open>
  The loop of \<^verbatim>\<open>get_uri_path\<close>. Python's \<^verbatim>\<open>bytes.decode('utf-8')\<close> and \<^verbatim>\<open>str(bytes)\<close> are
  parameters: \<open>decode\<close> returns \<open>None\<close> where the built-in raises, and the \<^verbatim>\<open>except\<close>
  branch then takes \<open>str_of\<close>.
\<close>

fun uri_path_list :: "(bytes \<Rightarrow> string option) \<Rightarrow> (bytes \<Rightarrow> string) \<Rightarrow> (int \<times> bytes) list \<Rightarrow> string list" where
  "uri_path_list decode str_of [] = []"
| "uri_path_list decode str_of (option # rest) =
     (if fst option = URI_PATH
      then (case decode (snd option) of Some s \<Rightarrow> s | None \<Rightarrow> str_of (snd option))
             # uri_path_list decode str_of rest
      else uri_path_list decode str_of rest)"

definition get_uri_path :: "(bytes \<Rightarrow> string option) \<Rightarrow> (bytes \<Rightarrow> string) \<Rightarrow> CoAPMessage \<Rightarrow> string" where
  "get_uri_path decode str_of self = join ''/'' (uri_path_list decode str_of (options self))"

subsection \<open>SmartStoreServer\<close>

text \<open>The server's state: the ledger, and the datagrams handed to \<^verbatim>\<open>socket.sendto\<close> so far,
  oldest first, each with its destination.\<close>

record SmartStoreServer =
  store_stats :: StoreStats
  socket :: "(bytes \<times> address) list"

definition send_response :: "SmartStoreServer \<Rightarrow> CoAPMessage \<Rightarrow> int \<Rightarrow> payload_arg \<Rightarrow> error + SmartStoreServer" where
  "send_response self message code' payload' =
     (let response = create_response message code' payload'
      in case serialize response of
           Inl e \<Rightarrow> Inl e
         | Inr data \<Rightarrow>
             (case source message of
                None \<Rightarrow> Inl TypeError
              | Some addr \<Rightarrow> Inr (self\<lparr>socket := socket self @ [(data, addr)]\<rparr>)))"

text \<open>\<^verbatim>\<open>display\<close> only prints, so the handlers end with the state \<^verbatim>\<open>send_response\<close> leaves.\<close>

definition handle_entry_request :: "SmartStoreServer \<Rightarrow> CoAPMessage \<Rightarrow> error + SmartStoreServer" where
  "handle_entry_request self message =
     (if can_enter (store_stats self) then
        (let (added, stats) = add_customer (store_stats self);
             self = self\<lparr>store_stats := stats\<rparr>
         in if added then send_response self message CONTENT (Str ''allowed'')
            else send_response self message CONTENT (Str ''denied''))
      else send_response self message CONTENT (Str ''denied''))"

definition handle_exit_request :: "SmartStoreServer \<Rightarrow> CoAPMessage \<Rightarrow> error + SmartStoreServer" where
  "handle_exit_request self message =
     (let (removed, stats) = remove_customer (store_stats self);
          self = self\<lparr>store_stats := stats\<rparr>
      in if removed then send_response self message CHANGED (Str ''success'')
         else send_response self message CHANGED (Str ''error''))"

section \<open>The capacity ledger\<close>

lemma ledger_step_bounds:
  "0 \<le> customers_in_store s \<and> customers_in_store s \<le> max_capacity s \<Longrightarrow>
   0 \<le> customers_in_store (ledger_step s x) \<and>
   customers_in_store (ledger_step s x) \<le> max_capacity (ledger_step s x)"
  by (cases x) (simp_all add: add_customer_def remove_customer_def)

lemma ledger_run_bounds:
  "0 \<le> customers_in_store s \<and> customers_in_store s \<le> max_capacity s \<Longrightarrow>
   0 \<le> customers_in_store (ledger_run ops s) \<and>
   customers_in_store (ledger_run ops s) \<le> max_capacity (ledger_run ops s)"
  unfolding ledger_run_def
proof (induction ops arbitrary: s)
  case Nil
  then show ?case by simp
next
  case (Cons x ops)
  from Cons.prems have "0 \<le> customers_in_store (ledger_step s x) \<and>
      customers_in_store (ledger_step s x) \<le> max_capacity (ledger_step s x)"
    by (rule ledger_step_bounds)
  then show ?case using Cons.IH [of "ledger_step s x"] by simp
qed

lemma ledger_step_total: "total_entrants s \<le> total_entrants (ledger_step s x)"
  by (cases x) (simp_all add: add_customer_def remove_customer_def)

lemma ledger_run_total: "total_entrants s \<le> total_entrants (ledger_run ops s)"
  unfolding ledger_run_def
proof (induction ops arbitrary: s)
  case Nil
  show ?case by simp
next
  case (Cons x ops)
  have "total_entrants s \<le> total_entrants (ledger_step s x)"
    by (rule ledger_step_total)
  also have "\<dots> \<le> total_entrants (foldl ledger_step (ledger_step s x) ops)"
    by (rule Cons.IH)
  finally show ?case by simp
qed

lemma ledger_run_append: "ledger_run (ops @ later) s = ledger_run later (ledger_run ops s)"
  by (simp add: ledger_run_def)

text \<open>
  Claim C2. After every sequence \<open>ops\<close> of \<^verbatim>\<open>add_customer\<close> and \<^verbatim>\<open>remove_customer\<close> calls from
  the initial state, \<open>0 \<le> customers_in_store \<le> max_capacity\<close>; \<open>total_entrants\<close> is never
  smaller after any further operations \<open>later\<close>; a call that returns false leaves the state
  as it was; \<^verbatim>\<open>remove_customer\<close> on an empty store returns false, and \<^verbatim>\<open>add_customer\<close> at
  capacity returns false.
\<close>

theorem ledger_invariant:
  "0 \<le> customers_in_store (ledger_run ops StoreStats_init) \<and>
   customers_in_store (ledger_run ops StoreStats_init) \<le> max_capacity (ledger_run ops StoreStats_init) \<and>
   total_entrants (ledger_run ops StoreStats_init)
     \<le> total_entrants (ledger_run (ops @ later) StoreStats_init) \<and>
   (\<not> fst (add_customer (ledger_run ops StoreStats_init)) \<longrightarrow>
      snd (add_customer (ledger_run ops StoreStats_init)) = ledger_run ops StoreStats_init) \<and>
   (\<not> fst (remove_customer (ledger_run ops StoreStats_init)) \<longrightarrow>
      snd (remove_customer (ledger_run ops StoreStats_init)) = ledger_run ops StoreStats_init) \<and>
   (customers_in_store (ledger_run ops StoreStats_init) = 0 \<longrightarrow>
      \<not> fst (remove_customer (ledger_run ops StoreStats_init))) \<and>
   (customers_in_store (ledger_run ops StoreStats_init) = max_capacity (ledger_run ops StoreStats_init) \<longrightarrow>
      \<not> fst (add_customer (ledger_run ops StoreStats_init)))"
proof -
  have init: "0 \<le> customers_in_store StoreStats_init \<and>
      customers_in_store StoreStats_init \<le> max_capacity StoreStats_init"
    by (simp add: StoreStats_init_def)
  have bounds: "0 \<le> customers_in_store (ledger_run ops StoreStats_init) \<and>
      customers_in_store (ledger_run ops StoreStats_init) \<le> max_capacity (ledger_run ops StoreStats_init)"
    using init by (rule ledger_run_bounds)
  have mono: "total_entrants (ledger_run ops StoreStats_init)
      \<le> total_entrants (ledger_run (ops @ later) StoreStats_init)"
    by (simp add: ledger_run_append ledger_run_total)
  show ?thesis
    using bounds mono by (simp add: add_customer_def remove_customer_def)
qed

text \<open>The store filled by ten entries refuses the eleventh, and the store emptied by an
  exit refuses a second exit; both refusals leave the state as it was.\<close>

theorem ledger_invariant_witness:
  "\<not> fst (add_customer (ledger_run [Enter, Enter, Enter, Enter, Enter, Enter, Enter, Enter, Enter, Enter] StoreStats_init)) \<and>
   customers_in_store (ledger_run [Enter, Enter, Enter, Enter, Enter, Enter, Enter, Enter, Enter, Enter] StoreStats_init) = 10 \<and>
   snd (add_customer (ledger_run [Enter, Enter, Enter, Enter, Enter, Enter, Enter, Enter, Enter, Enter] StoreStats_init))
     = ledger_run [Enter, Enter, Enter, Enter, Enter, Enter, Enter, Enter, Enter, Enter] StoreStats_init \<and>
   \<not> fst (remove_customer (ledger_run [Enter, Leave] StoreStats_init)) \<and>
   customers_in_store (ledger_run [Enter, Leave] StoreStats_init) = 0 \<and>
   total_entrants (ledger_run [Enter, Leave] StoreStats_init) = 1 \<and>
   snd (remove_customer (ledger_run [Enter, Leave] StoreStats_init)) = ledger_run [Enter, Leave] StoreStats_init"
proof -
  have full: "\<not> fst (add_customer (ledger_run [Enter, Enter, Enter, Enter, Enter, Enter, Enter, Enter, Enter, Enter] StoreStats_init))"
    and ten: "customers_in_store (ledger_run [Enter, Enter, Enter, Enter, Enter, Enter, Enter, Enter, Enter, Enter] StoreStats_init) = 10"
    by (simp_all add: ledger_run_def add_customer_def StoreStats_init_def)
  have empty: "\<not> fst (remove_customer (ledger_run [Enter, Leave] StoreStats_init))"
    and zero: "customers_in_store (ledger_run [Enter, Leave] StoreStats_init) = 0"
    and one: "total_entrants (ledger_run [Enter, Leave] StoreStats_init) = 1"
    by (simp_all add: ledger_run_def add_customer_def remove_customer_def StoreStats_init_def)
  show ?thesis
    using full ten empty zero one
      ledger_invariant [of "[Enter, Enter, Enter, Enter, Enter, Enter, Enter, Enter, Enter, Enter]" "[]"]
      ledger_invariant [of "[Enter, Leave]" "[]"]
    by blast
qed

section \<open>Responses\<close>

text \<open>
  Claim C9. The message \<^verbatim>\<open>create_response\<close> returns has the request's token and message id,
  type ACK, and the given code and payload (a \<^verbatim>\<open>str\<close> payload as its UTF-8 bytes). On the
  object store, for a live request object \<open>self\<close>, the response is a newly allocated object
  and every object that existed before the call, the request among them, is unchanged.
\<close>

theorem create_response_fields:
  "token (create_response m c p) = token m \<and>
   message_id (create_response m c p) = message_id m \<and>
   type (create_response m c p) = ACK \<and>
   code (create_response m c p) = c \<and>
   payload (create_response m c (Bytes b)) = b \<and>
   payload (create_response m c (Str s)) = encode_utf8 s \<and>
   (self < length h \<longrightarrow>
      (case create_response_obj h self c p of
         (h', response) \<Rightarrow>
           response = length h \<and> length h' = Suc (length h) \<and> take (length h) h' = h \<and>
           h' ! self = h ! self \<and> h' ! response = create_response (h ! self) c p))"
  by (simp add: create_response_def create_response_obj_def new_CoAPMessage_def setattr_def
      Let_def nth_append)

text \<open>A request with token \<open>[1, 2]\<close>, message id 7 and one path option, answered with
  Content and \<^verbatim>\<open>"allowed"\<close>.\<close>

theorem create_response_fields_witness:
  "(0::nat) < length [CoAPMessage_init\<lparr>message_id := 7, token := [1, 2], options := [(11, [101])]\<rparr>] \<and>
   create_response_obj [CoAPMessage_init\<lparr>message_id := 7, token := [1, 2], options := [(11, [101])]\<rparr>] 0 69 (Str ''allowed'')
     = ([CoAPMessage_init\<lparr>message_id := 7, token := [1, 2], options := [(11, [101])]\<rparr>,
         \<lparr>version = 1, type = 2, token_length = 2, code = 69, message_id = 7, token = [1, 2],
          options = [], payload = [97, 108, 108, 111, 119, 101, 100], source = None\<rparr>], 1)"
  using create_response_fields [of "CoAPMessage_init\<lparr>message_id := 7, token := [1, 2], options := [(11, [101])]\<rparr>"
      69 "Str ''allowed''" "[]" "[]" 0 "[CoAPMessage_init\<lparr>message_id := 7, token := [1, 2], options := [(11, [101])]\<rparr>]"]
  by (simp add: create_response_def create_response_obj_def new_CoAPMessage_def setattr_def
      Let_def CoAPMessage_init_def ACK_def encode_utf8_def)

text \<open>
  Claim C10. The message \<^verbatim>\<open>create_response\<close> returns has no options, whatever options the
  request carries, so its URI path is the empty string.
\<close>

theorem create_response_no_options:
  "options (create_response m c p) = [] \<and>
   get_uri_path decode str_of (create_response m c p) = ''''"
  by (simp add: create_response_def get_uri_path_def CoAPMessage_init_def)

section \<open>The codec\<close>

lemma parse_loop_done: "length data \<le> pos \<Longrightarrow> parse_loop data pos n m = Inr m"
  by (simp add: parse_loop.simps)

lemma parse_loop_marker:
  "pos < length data \<Longrightarrow> data ! pos = 0xFF \<Longrightarrow>
   parse_loop data pos n m = Inr (m\<lparr>payload := drop (pos + 1) data\<rparr>)"
  by (simp add: parse_loop.simps)

lemma parse_loop_option:
  "pos < length data \<Longrightarrow> data ! pos \<noteq> 0xFF \<Longrightarrow>
   parse_loop data pos n m =
     (case extended data (unat (drop_bit 4 (data ! pos) AND 0x0F)) (pos + 1) of
        Inl e \<Rightarrow> Inl e
      | Inr (delta, pos2) \<Rightarrow>
          (case extended data (unat (data ! pos AND 0x0F)) pos2 of
             Inl e \<Rightarrow> Inl e
           | Inr (len, pos3) \<Rightarrow>
               parse_loop data (pos3 + len) (n + int delta)
                 (m\<lparr>options := options m @ [(n + int delta, slice data pos3 (pos3 + len))]\<rparr>)))"
  by (subst parse_loop.simps) (simp add: Let_def split: sum.splits prod.splits)

lemma parse_loop_fields:
  "parse_loop data pos n m = Inr m' \<Longrightarrow>
   version m' = version m \<and> type m' = type m \<and> token_length m' = token_length m \<and>
   code m' = code m \<and> message_id m' = message_id m \<and> token m' = token m \<and>
   source m' = source m"
proof (induction data pos n m rule: parse_loop.induct)
  case (1 data pos n m)
  show ?case
  proof (cases "pos < length data")
    case False
    with "1.prems" show ?thesis by (simp add: parse_loop_done)
  next
    case True
    show ?thesis
    proof (cases "data ! pos = 0xFF")
      case True
      with \<open>pos < length data\<close> "1.prems" show ?thesis
        by (auto simp: parse_loop_marker)
    next
      case False
      from "1.prems" True False obtain delta pos2 len pos3 where
        d: "extended data (unat (drop_bit 4 (data ! pos) AND 0x0F)) (pos + 1) = Inr (delta, pos2)"
        and l: "extended data (unat (data ! pos AND 0x0F)) pos2 = Inr (len, pos3)"
        and r: "parse_loop data (pos3 + len) (n + int delta)
                 (m\<lparr>options := options m @ [(n + int delta, slice data pos3 (pos3 + len))]\<rparr>) = Inr m'"
        by (auto simp: parse_loop_option split: sum.splits)
      from "1.IH" [OF True False refl refl refl d refl l refl refl refl r]
      show ?thesis by simp
    qed
  qed
qed

lemma parse_loop_error:
  "parse_loop data pos n m = Inl e \<Longrightarrow> e = IndexError \<or> e = StructError"
proof (induction data pos n m rule: parse_loop.induct)
  case (1 data pos n m)
  show ?case
  proof (cases "pos < length data \<and> data ! pos \<noteq> 0xFF")
    case False
    with "1.prems" show ?thesis
      by (cases "pos < length data") (auto simp: parse_loop_done parse_loop_marker)
  next
    case True
    then have T: "pos < length data" and F: "data ! pos \<noteq> 0xFF" by simp_all
    show ?thesis
    proof (cases "extended data (unat (drop_bit 4 (data ! pos) AND 0x0F)) (pos + 1)")
      case (Inl e')
      with "1.prems" T F show ?thesis
        by (auto simp: parse_loop_option extended_def split: if_splits list.splits)
    next
      case (Inr dp)
      obtain delta pos2 where dp: "dp = (delta, pos2)" by (cases dp)
      show ?thesis
      proof (cases "extended data (unat (data ! pos AND 0x0F)) pos2")
        case (Inl e')
        with "1.prems" T F Inr dp show ?thesis
          by (auto simp: parse_loop_option extended_def split: if_splits list.splits)
      next
        case (Inr lp)
        obtain len pos3 where lp: "lp = (len, pos3)" by (cases lp)
        from "1.prems" T F \<open>extended data (unat (drop_bit 4 (data ! pos) AND 0x0F)) (pos + 1) = Inr dp\<close> dp Inr lp
        have r: "parse_loop data (pos3 + len) (n + int delta)
                 (m\<lparr>options := options m @ [(n + int delta, slice data pos3 (pos3 + len))]\<rparr>) = Inl e"
          by (simp add: parse_loop_option)
        from "1.IH" [OF T F refl refl refl _ refl _ refl refl refl r]
          \<open>extended data (unat (drop_bit 4 (data ! pos) AND 0x0F)) (pos + 1) = Inr dp\<close> dp Inr lp
        show ?thesis by simp
      qed
    qed
  qed
qed


lemma parse_short: "length data < 4 \<Longrightarrow> parse data = Inl ValueError"
  by (simp add: parse_def)

lemma parse_fields:
  assumes "parse data = Inr m"
  shows "4 \<le> length data \<and>
    version m = drop_bit 6 (uint (data ! 0)) AND 0x03 \<and>
    type m = drop_bit 4 (uint (data ! 0)) AND 0x03 \<and>
    token_length m = uint (data ! 0) AND 0x0F \<and>
    code m = uint (data ! 1) \<and>
    message_id m = 256 * uint (data ! 2) + uint (data ! 3) \<and>
    token m = slice data 4 (4 + nat (token_length m)) \<and>
    source m = None"
proof -
  from assms have len: "4 \<le> length data"
    by (auto simp: parse_def split: if_splits)
  with assms show ?thesis
    by (auto simp: parse_def Let_def CoAPMessage_init_def slice_def
        dest!: parse_loop_fields split: if_splits)
qed

lemma parse_header_only:
  "parse [b0, b1, b2, b3] =
     Inr \<lparr>version = drop_bit 6 (uint b0) AND 0x03, type = drop_bit 4 (uint b0) AND 0x03,
          token_length = uint b0 AND 0x0F, code = uint b1,
          message_id = 256 * uint b2 + uint b3, token = [], options = [], payload = [],
          source = None\<rparr>"
  by (simp add: parse_def Let_def CoAPMessage_init_def slice_def parse_loop_done)


text \<open>
  Claim C1. \<^verbatim>\<open>parse\<close> after \<^verbatim>\<open>serialize\<close> does not give the message back once an option's
  delta needs an extension: \<^verbatim>\<open>serialize\<close> writes only the low four bits of the delta, so an
  option numbered 300 comes back as number 12, and the bytes written for an option numbered
  13 make \<^verbatim>\<open>parse\<close> index past the end of the buffer.
\<close>

theorem round_trip_fails_on_extended_delta:
  "serialize (CoAPMessage_init\<lparr>options := [(300, [])]\<rparr>) = Inr [0x40, 0, 0, 0, 0xC0] \<and>
   parse [0x40, 0, 0, 0, 0xC0] = Inr (CoAPMessage_init\<lparr>options := [(12, [])]\<rparr>) \<and>
   serialize (CoAPMessage_init\<lparr>options := [(13, [])]\<rparr>) = Inr [0x40, 0, 0, 0, 0xD0] \<and>
   parse [0x40, 0, 0, 0, 0xD0] = Inl IndexError"
  by (simp add: serialize_def parse_def parse_loop.simps extended_def slice_def
      CoAPMessage_init_def)

text \<open>
  Claim C4, as stated, fails on a token-length nibble of 9: the four-byte buffer is
  accepted.
\<close>

theorem parse_token_length_nine:
  "uint (0x49 :: byte) AND 0x0F = 9 \<and>
   parse [0x49, 1, 0, 0] =
     Inr \<lparr>version = 1, type = 0, token_length = 9, code = 1, message_id = 0, token = [],
          options = [], payload = [], source = None\<rparr>"
  by (simp add: parse_def parse_loop.simps slice_def CoAPMessage_init_def)

text \<open>
  Claim C4, amended. \<^verbatim>\<open>parse\<close> raises its ValueError ("Message too short") for every buffer
  shorter than 4 bytes and for no other. The token-length nibble is not checked: a message
  that \<^verbatim>\<open>parse\<close> returns has the nibble as its \<open>token_length\<close>, whatever its value, and as
  token the bytes of the slice after the header; every 4-byte buffer is accepted.
\<close>

theorem parse_length_check:
  "(length data < 4 \<longrightarrow> parse data = Inl ValueError) \<and>
   (4 \<le> length data \<longrightarrow> parse data \<noteq> Inl ValueError) \<and>
   (parse data = Inr m \<longrightarrow>
      token_length m = uint (data ! 0) AND 0x0F \<and>
      token m = slice data 4 (4 + nat (token_length m))) \<and>
   parse [b0, b1, b2, b3] =
     Inr \<lparr>version = drop_bit 6 (uint b0) AND 0x03, type = drop_bit 4 (uint b0) AND 0x03,
          token_length = uint b0 AND 0x0F, code = uint b1,
          message_id = 256 * uint b2 + uint b3, token = [], options = [], payload = [],
          source = None\<rparr>"
proof -
  have "parse data \<noteq> Inl ValueError" if "4 \<le> length data"
  proof
    assume "parse data = Inl ValueError"
    with that have "\<exists>pos n m. parse_loop data pos n m = Inl ValueError"
      by (auto simp: parse_def Let_def split: if_splits)
    then show False by (auto dest: parse_loop_error)
  qed
  then show ?thesis
    using parse_fields [of data m] by (simp add: parse_short parse_header_only)
qed

text \<open>A two-byte buffer, and a five-byte buffer whose token-length nibble is 9.\<close>

theorem parse_length_check_witness:
  "length [0x49, 1 :: byte] < 4 \<and> parse [0x49, 1] = Inl ValueError \<and>
   4 \<le> length [0x49, 1, 0, 7, 0xAA :: byte] \<and>
   parse [0x49, 1, 0, 7, 0xAA] =
     Inr \<lparr>version = 1, type = 0, token_length = 9, code = 1, message_id = 7, token = [0xAA],
          options = [], payload = [], source = None\<rparr>"
proof -
  have p: "parse [0x49, 1, 0, 7, 0xAA] =
     Inr \<lparr>version = 1, type = 0, token_length = 9, code = 1, message_id = 7, token = [0xAA],
          options = [], payload = [], source = None\<rparr>"
    by (simp add: parse_def parse_loop.simps slice_def CoAPMessage_init_def)
  show ?thesis
    using p parse_length_check [of "[0x49, 1]"]
      parse_length_check [of "[0x49, 1, 0, 7, 0xAA]"
        "\<lparr>version = 1, type = 0, token_length = 9, code = 1, message_id = 7, token = [0xAA],
          options = [], payload = [], source = None\<rparr>"]
    by simp
qed

text \<open>Claim C5, as stated, fails on a buffer whose version field is 2: it is accepted.\<close>

theorem parse_version_two:
  "drop_bit 6 (uint (0x80 :: byte)) AND 0x03 = 2 \<and>
   parse [0x80, 1, 0, 0] =
     Inr \<lparr>version = 2, type = 0, token_length = 0, code = 1, message_id = 0, token = [],
          options = [], payload = [], source = None\<rparr>"
  by (simp add: parse_def parse_loop.simps slice_def CoAPMessage_init_def)

text \<open>
  Claim C5, amended. \<^verbatim>\<open>parse\<close> does not check the version: a message it returns has the
  top two bits of byte 0 as its \<open>version\<close>, whatever their value, and every 4-byte buffer
  is accepted with that version.
\<close>

theorem parse_version_unchecked:
  "(parse data = Inr m \<longrightarrow> version m = drop_bit 6 (uint (data ! 0)) AND 0x03) \<and>
   (\<exists>m'. parse [b0, b1, b2, b3] = Inr m' \<and> version m' = drop_bit 6 (uint b0) AND 0x03)"
  using parse_fields [of data m] by (simp add: parse_header_only)

text \<open>A request with version 3 and one path option.\<close>

theorem parse_version_unchecked_witness:
  "parse [0xC0, 1, 0, 0, 0xB1, 0x65] =
     Inr \<lparr>version = 3, type = 0, token_length = 0, code = 1, message_id = 0, token = [],
          options = [(11, [0x65])], payload = [], source = None\<rparr> \<and>
   drop_bit 6 (uint ([0xC0, 1, 0, 0, 0xB1, 0x65 :: byte] ! 0)) AND 0x03 = 3"
proof -
  have p: "parse [0xC0, 1, 0, 0, 0xB1, 0x65] =
     Inr \<lparr>version = 3, type = 0, token_length = 0, code = 1, message_id = 0, token = [],
          options = [(11, [0x65])], payload = [], source = None\<rparr>"
    by (simp add: parse_def parse_loop.simps extended_def slice_def CoAPMessage_init_def)
  show ?thesis
    using p parse_version_unchecked [of "[0xC0, 1, 0, 0, 0xB1, 0x65]"
        "\<lparr>version = 3, type = 0, token_length = 0, code = 1, message_id = 0, token = [],
          options = [(11, [0x65])], payload = [], source = None\<rparr>"]
    by simp
qed


lemma extended_plain: "v \<noteq> 13 \<Longrightarrow> v \<noteq> 14 \<Longrightarrow> extended data v pos = Inr (v, pos)"
  by (simp add: extended_def)

text \<open>
  Claim C6, as stated, fails on an option byte whose delta nibble is 15, and on one whose
  length nibble is 15: both buffers are accepted.
\<close>

theorem parse_nibble_fifteen:
  "unat (drop_bit 4 (0xF0 :: byte) AND 0x0F) = 15 \<and>
   parse [0x40, 1, 0, 0, 0xF0] =
     Inr \<lparr>version = 1, type = 0, token_length = 0, code = 1, message_id = 0, token = [],
          options = [(15, [])], payload = [], source = None\<rparr> \<and>
   unat ((0x0F :: byte) AND 0x0F) = 15 \<and>
   parse [0x40, 1, 0, 0, 0x0F, 0x61] =
     Inr \<lparr>version = 1, type = 0, token_length = 0, code = 1, message_id = 0, token = [],
          options = [(0, [0x61])], payload = [], source = None\<rparr>"
  by (simp add: parse_def parse_loop.simps extended_def slice_def CoAPMessage_init_def)

text \<open>
  Claim C6, amended. At an option byte other than the payload marker \<open>0xFF\<close>, a delta
  nibble of 15 is the delta 15 and a length nibble of 15 is the length 15: the loop goes on
  with the option number raised by 15, respectively with the next (at most) 15 bytes as the
  option's value, and fails only where reading the other nibble's extension does.
\<close>

theorem parse_loop_nibble_fifteen:
  assumes "pos < length data" and "data ! pos \<noteq> 0xFF"
  shows "(unat (drop_bit 4 (data ! pos) AND 0x0F) = 15 \<longrightarrow>
           parse_loop data pos n m =
             (case extended data (unat (data ! pos AND 0x0F)) (pos + 1) of
                Inl e \<Rightarrow> Inl e
              | Inr (len, pos3) \<Rightarrow>
                  parse_loop data (pos3 + len) (n + 15)
                    (m\<lparr>options := options m @ [(n + 15, slice data pos3 (pos3 + len))]\<rparr>))) \<and>
         (unat (data ! pos AND 0x0F) = 15 \<longrightarrow>
           parse_loop data pos n m =
             (case extended data (unat (drop_bit 4 (data ! pos) AND 0x0F)) (pos + 1) of
                Inl e \<Rightarrow> Inl e
              | Inr (delta, pos2) \<Rightarrow>
                  parse_loop data (pos2 + 15) (n + int delta)
                    (m\<lparr>options := options m @ [(n + int delta, slice data pos2 (pos2 + 15))]\<rparr>)))"
  using assms
  by (simp add: parse_loop_option extended_plain split: sum.splits prod.splits)

text \<open>An option with delta nibble 15 and a one-byte value, then an option with length
  nibble 15 at the end of the buffer.\<close>

theorem parse_loop_nibble_fifteen_witness:
  "(4::nat) < length [0x40, 1, 0, 0, 0xF1, 0x61, 0x0F :: byte] \<and>
   [0x40, 1, 0, 0, 0xF1, 0x61, 0x0F :: byte] ! 4 \<noteq> 0xFF \<and>
   unat (drop_bit 4 ([0x40, 1, 0, 0, 0xF1, 0x61, 0x0F :: byte] ! 4) AND 0x0F) = 15 \<and>
   (6::nat) < length [0x40, 1, 0, 0, 0xF1, 0x61, 0x0F :: byte] \<and>
   [0x40, 1, 0, 0, 0xF1, 0x61, 0x0F :: byte] ! 6 \<noteq> 0xFF \<and>
   unat ([0x40, 1, 0, 0, 0xF1, 0x61, 0x0F :: byte] ! 6 AND 0x0F) = 15 \<and>
   parse_loop [0x40, 1, 0, 0, 0xF1, 0x61, 0x0F] 4 0 CoAPMessage_init =
     Inr (CoAPMessage_init\<lparr>options := [(15, [0x61]), (15, [])]\<rparr>)"
proof -
  have a: "(4::nat) < length [0x40, 1, 0, 0, 0xF1, 0x61, 0x0F :: byte]"
    and b: "[0x40, 1, 0, 0, 0xF1, 0x61, 0x0F :: byte] ! 4 \<noteq> 0xFF"
    and c: "(6::nat) < length [0x40, 1, 0, 0, 0xF1, 0x61, 0x0F :: byte]"
    and d: "[0x40, 1, 0, 0, 0xF1, 0x61, 0x0F :: byte] ! 6 \<noteq> 0xFF"
    by simp_all
  show ?thesis
    using parse_loop_nibble_fifteen [OF a b, of 0 CoAPMessage_init]
      parse_loop_nibble_fifteen [OF c d, of 15 "CoAPMessage_init\<lparr>options := [(15, [0x61])]\<rparr>"]
    by (simp add: extended_def slice_def parse_loop_done CoAPMessage_init_def)
qed

text \<open>
  Claim C7, as stated, fails on a buffer with one byte after a header that declares a
  two-byte token, and on an option that declares three value bytes where one remains: both
  are accepted, with the shorter token and the shorter value.
\<close>

theorem parse_short_token_and_value:
  "parse [0x42, 1, 0, 0, 0xAA] =
     Inr \<lparr>version = 1, type = 0, token_length = 2, code = 1, message_id = 0, token = [0xAA],
          options = [], payload = [], source = None\<rparr> \<and>
   parse [0x40, 1, 0, 0, 0x03, 0x61] =
     Inr \<lparr>version = 1, type = 0, token_length = 0, code = 1, message_id = 0, token = [],
          options = [(0, [0x61])], payload = [], source = None\<rparr>"
  by (simp add: parse_def parse_loop.simps extended_def slice_def CoAPMessage_init_def)

text \<open>
  Claim C7, amended. \<^verbatim>\<open>parse\<close> does not fail where fewer bytes remain than declared. Where
  fewer bytes follow the header than the token length declares, it returns the message whose
  token is the bytes that do follow, with no options and no payload; where fewer bytes
  remain than an option's length declares, the loop ends with that option's value cut to the
  bytes that remain.
\<close>

theorem parse_truncated_values:
  "(4 \<le> length data \<and> length data < 4 + nat (uint (data ! 0) AND 0x0F) \<longrightarrow>
      parse data =
        Inr \<lparr>version = drop_bit 6 (uint (data ! 0)) AND 0x03,
             type = drop_bit 4 (uint (data ! 0)) AND 0x03,
             token_length = uint (data ! 0) AND 0x0F, code = uint (data ! 1),
             message_id = 256 * uint (data ! 2) + uint (data ! 3), token = drop 4 data,
             options = [], payload = [], source = None\<rparr>) \<and>
   (pos < length data \<and> data ! pos \<noteq> 0xFF \<and>
    extended data (unat (drop_bit 4 (data ! pos) AND 0x0F)) (pos + 1) = Inr (delta, pos2) \<and>
    extended data (unat (data ! pos AND 0x0F)) pos2 = Inr (len, pos3) \<and>
    length data < pos3 + len \<longrightarrow>
      parse_loop data pos n m = Inr (m\<lparr>options := options m @ [(n + int delta, drop pos3 data)]\<rparr>))"
proof -
  have tok: "parse data =
        Inr \<lparr>version = drop_bit 6 (uint (data ! 0)) AND 0x03,
             type = drop_bit 4 (uint (data ! 0)) AND 0x03,
             token_length = uint (data ! 0) AND 0x0F, code = uint (data ! 1),
             message_id = 256 * uint (data ! 2) + uint (data ! 3), token = drop 4 data,
             options = [], payload = [], source = None\<rparr>"
    if "4 \<le> length data" and "length data < 4 + nat (uint (data ! 0) AND 0x0F)"
  proof -
    from that have pos: "0 < uint (data ! 0) AND 0x0F" by simp
    from that have "length data \<le> 4 + nat (uint (data ! 0) AND 0x0F)" by simp
    then have "parse_loop data (4 + nat (uint (data ! 0) AND 0x0F)) 0 x = Inr x" for x
      by (rule parse_loop_done)
    with that pos show ?thesis
      by (simp add: parse_def Let_def CoAPMessage_init_def slice_def)
  qed
  have val: "parse_loop data pos n m = Inr (m\<lparr>options := options m @ [(n + int delta, drop pos3 data)]\<rparr>)"
    if "pos < length data" and "data ! pos \<noteq> 0xFF"
      and "extended data (unat (drop_bit 4 (data ! pos) AND 0x0F)) (pos + 1) = Inr (delta, pos2)"
      and "extended data (unat (data ! pos AND 0x0F)) pos2 = Inr (len, pos3)"
      and "length data < pos3 + len"
    using that by (simp add: parse_loop_option parse_loop_done slice_def)
  from tok val show ?thesis by blast
qed

text \<open>The two buffers of the counterexample.\<close>

theorem parse_truncated_values_witness:
  "parse [0x42, 1, 0, 0, 0xAA] =
     Inr \<lparr>version = 1, type = 0, token_length = 2, code = 1, message_id = 0, token = [0xAA],
          options = [], payload = [], source = None\<rparr> \<and>
   extended [0x40, 1, 0, 0, 0x03, 0x61] 0 5 = Inr (0, 5) \<and>
   extended [0x40, 1, 0, 0, 0x03, 0x61] 3 5 = Inr (3, 5) \<and>
   length [0x40, 1, 0, 0, 0x03, 0x61 :: byte] < 5 + 3 \<and>
   parse_loop [0x40, 1, 0, 0, 0x03, 0x61] 4 0 CoAPMessage_init =
     Inr (CoAPMessage_init\<lparr>options := [(0, [0x61])]\<rparr>)"
  using parse_truncated_values [of "[0x42, 1, 0, 0, 0xAA]"]
    parse_truncated_values [of "[0x40, 1, 0, 0, 0x03, 0x61]" 4 0 5 3 5 0 CoAPMessage_init]
  by (simp add: extended_def CoAPMessage_init_def)

text \<open>
  Claim C8. \<^verbatim>\<open>serialize\<close> does not keep the relative order of options with equal numbers:
  \<^verbatim>\<open>sorted\<close> orders them by their values. Two path segments \<open>b\<close>, \<open>a\<close> are written, and
  read back, as \<open>a\<close>, \<open>b\<close>.
\<close>

theorem serialize_reorders_equal_numbers:
  "serialize (CoAPMessage_init\<lparr>options := [(11, [0x62]), (11, [0x61])]\<rparr>)
     = Inr [0x40, 0, 0, 0, 0xB1, 0x61, 0x01, 0x62] \<and>
   parse [0x40, 0, 0, 0, 0xB1, 0x61, 0x01, 0x62]
     = Inr (CoAPMessage_init\<lparr>options := [(11, [0x61]), (11, [0x62])]\<rparr>)"
  by (simp add: serialize_def parse_def parse_loop.simps extended_def slice_def
      CoAPMessage_init_def)

section \<open>The handlers\<close>

lemma nibble_cases:
  "0 \<le> (x::int) \<Longrightarrow> x \<le> 15 \<Longrightarrow>
   x = 0 \<or> x = 1 \<or> x = 2 \<or> x = 3 \<or> x = 4 \<or> x = 5 \<or> x = 6 \<or> x = 7 \<or>
   x = 8 \<or> x = 9 \<or> x = 10 \<or> x = 11 \<or> x = 12 \<or> x = 13 \<or> x = 14 \<or> x = 15"
  by arith

lemma ack_header:
  assumes "0 \<le> (x::int)" and "x \<le> 15"
  shows "uint (word_of_int (push_bit 6 (1 AND 0x03) OR push_bit 4 (ACK AND 0x03) OR (x AND 0x0F)) :: byte)
           = 96 + x"
    and "drop_bit 6 (96 + x) AND 0x03 = 1"
    and "drop_bit 4 (96 + x) AND 0x03 = 2"
    and "(96 + x) AND 0x0F = x"
  using nibble_cases [OF assms] by (auto simp: ACK_def)

lemma uint_byte: "0 \<le> x \<Longrightarrow> x \<le> 255 \<Longrightarrow> uint (word_of_int x :: byte) = x"
  by (simp add: uint_word_of_int take_bit_eq_mod)

lemma uint_message_id:
  assumes "0 \<le> x" and "x \<le> 65535"
  shows "256 * uint (word_of_int (x div 256) :: byte) + uint (word_of_int (x mod 256) :: byte) = x"
proof -
  from assms have "0 \<le> x div 256" and "x div 256 \<le> 255" by simp_all
  then have "uint (word_of_int (x div 256) :: byte) = x div 256" by (rule uint_byte)
  moreover have "uint (word_of_int (x mod 256) :: byte) = x mod 256"
    by (rule uint_byte) simp_all
  ultimately show ?thesis by simp
qed


lemma ack_header_int:
  assumes "0 \<le> (x::int)" and "x \<le> 15"
  shows "push_bit 6 (1 AND 0x03) OR push_bit 4 (ACK AND 0x03) OR (x AND 0x0F) = 96 + x"
  using nibble_cases [OF assms] by (auto simp: ACK_def)

lemma response_round_trip:
  assumes tok: "length (token m) \<le> 15"
    and mid: "0 \<le> message_id m" "message_id m \<le> 65535"
    and c: "0 \<le> c" "c \<le> 255"
  shows "\<exists>data. serialize (create_response m c p) = Inr data \<and>
           parse data = Inr (create_response m c p)"
proof -
  define x where "x = int (length (token m))"
  define pl where "pl = (case p of Bytes b \<Rightarrow> b | Str s \<Rightarrow> encode_utf8 s)"
  define r where "r = create_response m c p"
  define hdr :: bytes where "hdr = [word_of_int (96 + x), word_of_int c,
      word_of_int (message_id m div 256), word_of_int (message_id m mod 256)]"
  define data where "data = hdr @ token m @ (if pl \<noteq> [] then [0xFF] @ pl else [])"
  have x: "0 \<le> x" "x \<le> 15" using tok by (simp_all add: x_def)
  have r: "r = \<lparr>version = 1, type = ACK, token_length = x, code = c,
      message_id = message_id m, token = token m, options = [], payload = pl, source = None\<rparr>"
    by (simp add: r_def create_response_def CoAPMessage_init_def x_def pl_def)
  have fields: "version r = 1" "type r = ACK" "token_length r = x" "code r = c"
    "message_id r = message_id m" "token r = token m" "options r = []" "payload r = pl"
    by (simp_all add: r)
  have hd: "push_bit 6 (version r AND 0x03) OR push_bit 4 (type r AND 0x03)
      OR (token_length r AND 0x0F) = 96 + x"
    unfolding fields by (rule ack_header_int [OF x])
  have tok0: "token m = []" if "\<not> 0 < x" using that by (simp add: x_def)
  have ser: "serialize r = Inr data"
    unfolding serialize_def Let_def
    unfolding hd
    using c mid tok0 by (auto simp: fields data_def hdr_def)
  have hl: "length hdr = 4" by (simp add: hdr_def)
  have len: "4 \<le> length data" by (simp add: data_def hl)
  have d0: "data ! 0 = word_of_int (96 + x)" by (simp add: data_def hdr_def)
  have b0: "uint (data ! 0) = 96 + x"
    unfolding d0 by (rule uint_byte) (use x in simp_all)
  have b1: "uint (data ! 1) = c"
    using c by (simp add: data_def hdr_def uint_byte)
  have b23: "256 * uint (data ! 2) + uint (data ! 3) = message_id m"
    using uint_message_id [OF mid] by (simp add: data_def hdr_def)
  have tl: "nat x = length (token m)" by (simp add: x_def)
  have sl: "slice data 4 (4 + length (token m)) = token m"
    by (simp add: slice_def data_def hl)
  have loop: "parse_loop data (4 + length (token m)) 0 msg = Inr (msg\<lparr>payload := pl\<rparr>)"
    if "payload msg = []" for msg
  proof (cases "pl = []")
    case True
    then have "length data \<le> 4 + length (token m)" by (simp add: data_def hl)
    then show ?thesis using that True by (simp add: parse_loop_done)
  next
    case False
    then have lt: "4 + length (token m) < length data"
      and ff: "data ! (4 + length (token m)) = 0xFF"
      and dr: "drop (4 + length (token m) + 1) data = pl"
      by (simp_all add: data_def hl nth_append)
    show ?thesis using parse_loop_marker [OF lt ff, of 0 msg] dr by simp
  qed
  have "parse data = Inr r"
  proof (cases "0 < x")
    case True
    show ?thesis
      unfolding parse_def Let_def b0 b1 b23 ack_header(2-4) [OF x]
      using len tl sl True by (simp add: CoAPMessage_init_def loop r ACK_def)
  next
    case False
    then have e: "token m = []" by (rule tok0)
    have x0: "x = 0" using False x by simp
    have l4: "parse_loop data 4 0 msg = Inr (msg\<lparr>payload := pl\<rparr>)"
      if "payload msg = []" for msg
      using loop [OF that] e by simp
    show ?thesis
      unfolding parse_def Let_def b0 b1 b23 ack_header(2-4) [OF x]
      using len e x0 by (simp add: CoAPMessage_init_def l4 r ACK_def)
  qed
  with ser show ?thesis unfolding r_def by blast
qed


lemma parse_ranges:
  assumes "parse data = Inr m"
  shows "length (token m) \<le> 15" and "0 \<le> message_id m" and "message_id m \<le> 65535"
proof -
  note f = parse_fields [OF assms]
  have "token_length m \<le> 15"
    using f by (simp add: AND_upper2)
  then have "nat (token_length m) \<le> 15" by simp
  moreover have "length (token m) \<le> nat (token_length m)"
    using f by (simp add: slice_def)
  ultimately show "length (token m) \<le> 15" by simp
  have "uint (data ! 2) < 256" and "uint (data ! 3) < 256"
    using uint_bounded [of "data ! 2"] uint_bounded [of "data ! 3"] by simp_all
  moreover have "0 \<le> uint (data ! 2)" and "0 \<le> uint (data ! 3)" by simp_all
  ultimately show "0 \<le> message_id m" and "message_id m \<le> 65535"
    using f by simp_all
qed

lemma create_response_source: "create_response (m\<lparr>source := a\<rparr>) c p = create_response m c p"
  by (simp add: create_response_def)

lemma send_response_decoded:
  assumes "parse data = Inr m" and "0 \<le> c" and "c \<le> 255"
  shows "\<exists>reply. send_response srv (m\<lparr>source := Some addr\<rparr>) c p
             = Inr (srv\<lparr>socket := socket srv @ [(reply, addr)]\<rparr>) \<and>
           parse reply = Inr (create_response m c p)"
proof -
  from response_round_trip [OF parse_ranges [OF assms(1)] assms(2,3), of p]
  obtain reply where "serialize (create_response m c p) = Inr reply"
    and "parse reply = Inr (create_response m c p)" by blast
  then show ?thesis
    by (intro exI [of _ reply]) (simp add: send_response_def create_response_source)
qed

text \<open>
  Claim C3. For a request \<open>m\<close> that \<^verbatim>\<open>parse\<close> returned, with the sender's address stored in
  \<open>source\<close> as the receive loop does: \<^verbatim>\<open>handle_entry_request\<close> leaves the ledger as
  \<^verbatim>\<open>add_customer\<close> does and sends the sender one datagram, which decodes to an ACK with the
  request's token and message id, code CONTENT and payload \<^verbatim>\<open>"allowed"\<close> exactly when
  \<^verbatim>\<open>add_customer\<close> returns true, \<^verbatim>\<open>"denied"\<close> otherwise; \<^verbatim>\<open>handle_exit_request\<close> leaves the
  ledger as \<^verbatim>\<open>remove_customer\<close> does and sends code CHANGED with payload \<^verbatim>\<open>"success"\<close>
  exactly when \<^verbatim>\<open>remove_customer\<close> returns true, \<^verbatim>\<open>"error"\<close> otherwise.
\<close>

theorem handlers_respond:
  assumes "parse data = Inr m"
  shows "(\<exists>reply. handle_entry_request srv (m\<lparr>source := Some addr\<rparr>)
            = Inr \<lparr>store_stats = snd (add_customer (store_stats srv)),
                   socket = socket srv @ [(reply, addr)]\<rparr> \<and>
          parse reply =
            Inr \<lparr>version = 1, type = ACK, token_length = int (length (token m)),
                 code = CONTENT, message_id = message_id m, token = token m, options = [],
                 payload = encode_utf8 (if fst (add_customer (store_stats srv))
                                        then ''allowed'' else ''denied''),
                 source = None\<rparr>)
       \<and> (\<exists>reply. handle_exit_request srv (m\<lparr>source := Some addr\<rparr>)
            = Inr \<lparr>store_stats = snd (remove_customer (store_stats srv)),
                   socket = socket srv @ [(reply, addr)]\<rparr> \<and>
          parse reply =
            Inr \<lparr>version = 1, type = ACK, token_length = int (length (token m)),
                 code = CHANGED, message_id = message_id m, token = token m, options = [],
                 payload = encode_utf8 (if fst (remove_customer (store_stats srv))
                                        then ''success'' else ''error''),
                 source = None\<rparr>)"
proof -
  have resp: "create_response m c (Str s) =
      \<lparr>version = 1, type = ACK, token_length = int (length (token m)), code = c,
       message_id = message_id m, token = token m, options = [], payload = encode_utf8 s,
       source = None\<rparr>" for c s
    by (simp add: create_response_def CoAPMessage_init_def)
  have content: "0 \<le> CONTENT" "CONTENT \<le> 255" and changed: "0 \<le> CHANGED" "CHANGED \<le> 255"
    by (simp_all add: CONTENT_def CHANGED_def)
  have entry: "\<exists>reply. handle_entry_request srv (m\<lparr>source := Some addr\<rparr>)
            = Inr \<lparr>store_stats = snd (add_customer (store_stats srv)),
                   socket = socket srv @ [(reply, addr)]\<rparr> \<and>
          parse reply = Inr (create_response m CONTENT
            (Str (if fst (add_customer (store_stats srv)) then ''allowed'' else ''denied'')))"
  proof (cases "customers_in_store (store_stats srv) < max_capacity (store_stats srv)")
    case True
    define srv' where "srv' = srv\<lparr>store_stats := snd (add_customer (store_stats srv))\<rparr>"
    from send_response_decoded [OF assms content, of srv' addr "Str ''allowed''"]
    obtain reply where "send_response srv' (m\<lparr>source := Some addr\<rparr>) CONTENT (Str ''allowed'')
        = Inr (srv'\<lparr>socket := socket srv' @ [(reply, addr)]\<rparr>)"
      and "parse reply = Inr (create_response m CONTENT (Str ''allowed''))" by blast
    with True show ?thesis
      by (intro exI [of _ reply])
        (simp add: handle_entry_request_def can_enter_def add_customer_def srv'_def)
  next
    case False
    from send_response_decoded [OF assms content, of srv addr "Str ''denied''"]
    obtain reply where "send_response srv (m\<lparr>source := Some addr\<rparr>) CONTENT (Str ''denied'')
        = Inr (srv\<lparr>socket := socket srv @ [(reply, addr)]\<rparr>)"
      and "parse reply = Inr (create_response m CONTENT (Str ''denied''))" by blast
    with False show ?thesis
      by (intro exI [of _ reply])
        (simp add: handle_entry_request_def can_enter_def add_customer_def)
  qed
  have exit: "\<exists>reply. handle_exit_request srv (m\<lparr>source := Some addr\<rparr>)
            = Inr \<lparr>store_stats = snd (remove_customer (store_stats srv)),
                   socket = socket srv @ [(reply, addr)]\<rparr> \<and>
          parse reply = Inr (create_response m CHANGED
            (Str (if fst (remove_customer (store_stats srv)) then ''success'' else ''error'')))"
  proof (cases "0 < customers_in_store (store_stats srv)")
    case True
    define srv' where "srv' = srv\<lparr>store_stats := snd (remove_customer (store_stats srv))\<rparr>"
    from send_response_decoded [OF assms changed, of srv' addr "Str ''success''"]
    obtain reply where "send_response srv' (m\<lparr>source := Some addr\<rparr>) CHANGED (Str ''success'')
        = Inr (srv'\<lparr>socket := socket srv' @ [(reply, addr)]\<rparr>)"
      and "parse reply = Inr (create_response m CHANGED (Str ''success''))" by blast
    with True show ?thesis
      by (intro exI [of _ reply])
        (simp add: handle_exit_request_def remove_customer_def srv'_def)
  next
    case False
    from send_response_decoded [OF assms changed, of srv addr "Str ''error''"]
    obtain reply where "send_response srv (m\<lparr>source := Some addr\<rparr>) CHANGED (Str ''error'')
        = Inr (srv\<lparr>socket := socket srv @ [(reply, addr)]\<rparr>)"
      and "parse reply = Inr (create_response m CHANGED (Str ''error''))" by blast
    with False show ?thesis
      by (intro exI [of _ reply])
        (simp add: handle_exit_request_def remove_customer_def)
  qed
  from entry exit show ?thesis unfolding resp by blast
qed


text \<open>A GET for \<open>entry\<close> with token \<open>AB CD\<close> and message id \<open>0x1234\<close>, handled by the
  entry handler on a new server and by the exit handler on a new server.\<close>

theorem handlers_respond_witness:
  "parse [0x42, 1, 0x12, 0x34, 0xAB, 0xCD, 0xB5, 0x65, 0x6E, 0x74, 0x72, 0x79] =
     Inr \<lparr>version = 1, type = 0, token_length = 2, code = 1, message_id = 4660,
          token = [0xAB, 0xCD], options = [(11, [0x65, 0x6E, 0x74, 0x72, 0x79])],
          payload = [], source = None\<rparr> \<and>
   handle_entry_request \<lparr>store_stats = StoreStats_init, socket = []\<rparr>
       \<lparr>version = 1, type = 0, token_length = 2, code = 1, message_id = 4660,
        token = [0xAB, 0xCD], options = [(11, [0x65, 0x6E, 0x74, 0x72, 0x79])],
        payload = [], source = Some (''10.0.0.7'', 5683)\<rparr> =
     Inr \<lparr>store_stats = \<lparr>total_entrants = 1, customers_in_store = 1, max_capacity = 10\<rparr>,
          socket = [([0x62, 69, 0x12, 0x34, 0xAB, 0xCD, 0xFF, 97, 108, 108, 111, 119, 101, 100],
                     (''10.0.0.7'', 5683))]\<rparr> \<and>
   handle_exit_request \<lparr>store_stats = StoreStats_init, socket = []\<rparr>
       \<lparr>version = 1, type = 0, token_length = 2, code = 1, message_id = 4660,
        token = [0xAB, 0xCD], options = [(11, [0x65, 0x6E, 0x74, 0x72, 0x79])],
        payload = [], source = Some (''10.0.0.7'', 5683)\<rparr> =
     Inr \<lparr>store_stats = StoreStats_init,
          socket = [([0x62, 68, 0x12, 0x34, 0xAB, 0xCD, 0xFF, 101, 114, 114, 111, 114],
                     (''10.0.0.7'', 5683))]\<rparr>"
proof -
  have p: "parse [0x42, 1, 0x12, 0x34, 0xAB, 0xCD, 0xB5, 0x65, 0x6E, 0x74, 0x72, 0x79] =
     Inr \<lparr>version = 1, type = 0, token_length = 2, code = 1, message_id = 4660,
          token = [0xAB, 0xCD], options = [(11, [0x65, 0x6E, 0x74, 0x72, 0x79])],
          payload = [], source = None\<rparr>"
    by (simp add: parse_def parse_loop.simps extended_def slice_def CoAPMessage_init_def)
  show ?thesis
    using p handlers_respond [OF p, of "\<lparr>store_stats = StoreStats_init, socket = []\<rparr>"
        "(''10.0.0.7'', 5683)"]
    by (simp add: handle_entry_request_def handle_exit_request_def send_response_def
        create_response_def serialize_def can_enter_def add_customer_def remove_customer_def
        StoreStats_init_def CoAPMessage_init_def encode_utf8_def ACK_def CONTENT_def
        CHANGED_def)
qed

end
